theory Spec2Isabelle
  imports Complex_Main
begin

section \<open>JavaScript strings and arrays\<close>

text \<open>
  A JavaScript string is modelled as a \<^typ>\<open>string\<close>: one \<^typ>\<open>char\<close> per code unit,
  read as a Latin-1 code point. \<open>length\<close> is the \<open>.length\<close> of the source. Numbers
  that the code prints are non-negative integers, modelled as \<^typ>\<open>nat\<close> (exact in the
  source below \<open>2^53\<close>).
\<close>

definition digit_char :: "nat \<Rightarrow> char" where
  "digit_char d = ''0123456789'' ! d"

text \<open>\<open>Number.prototype.toString()\<close> on a non-negative integer: its decimal digits.\<close>

fun toString :: "nat \<Rightarrow> string" where
  "toString n = (if n < 10 then [digit_char n] else toString (n div 10) @ [digit_char (n mod 10)])"

declare toString.simps [simp del]

text \<open>\<open>Array.prototype.join(sep)\<close>.\<close>

fun join :: "string \<Rightarrow> string list \<Rightarrow> string" where
  "join sep [] = []"
| "join sep [x] = x"
| "join sep (x # y # ys) = x @ sep @ join sep (y # ys)"

text \<open>\<open>String.prototype.padStart(n, c)\<close> with a one-character filler.\<close>

definition padStart :: "nat \<Rightarrow> char \<Rightarrow> string \<Rightarrow> string" where
  "padStart n c s = replicate (n - length s) c @ s"

text \<open>\<open>a || d\<close> on an optional string: \<open>undefined\<close> and the empty string are falsy.\<close>

definition or_default :: "string option \<Rightarrow> string \<Rightarrow> string" where
  "or_default a d = (case a of None \<Rightarrow> d | Some s \<Rightarrow> if s = [] then d else s)"

text \<open>\<open>[...new Set(xs)]\<close>: duplicates removed, the first occurrence kept.\<close>

fun uniq :: "'a list \<Rightarrow> 'a list" where
  "uniq [] = []"
| "uniq (x # xs) = x # uniq (filter (\<lambda>y. y \<noteq> x) xs)"

text \<open>\<open>s.split('-')[0]\<close>: the part of \<open>s\<close> before its first hyphen.\<close>

definition split_first :: "string \<Rightarrow> string" where
  "split_first s = takeWhile (\<lambda>c. c \<noteq> CHR ''-'') s"

text \<open>\<open>s.startsWith(p)\<close>.\<close>

definition startsWith :: "string \<Rightarrow> string \<Rightarrow> bool" where
  "startsWith s p = (take (length p) s = p)"

text \<open>\<open>String.prototype.toLowerCase()\<close> on Latin-1 code points.\<close>

definition lower_char :: "char \<Rightarrow> char" where
  "lower_char c =
     (let n = of_char c :: nat in
      if (65 \<le> n \<and> n \<le> 90) \<or> (192 \<le> n \<and> n \<le> 222 \<and> n \<noteq> 215) then char_of (n + 32) else c)"

definition toLowerCase :: "string \<Rightarrow> string" where
  "toLowerCase s = map lower_char s"

text \<open>\<open>String.prototype.trim()\<close>: the white space and line terminators of Latin-1.\<close>

definition is_space :: "char \<Rightarrow> bool" where
  "is_space c = (of_char c \<in> {9, 10, 11, 12, 13, 32, 160 :: nat})"

definition trim :: "string \<Rightarrow> string" where
  "trim s = rev (dropWhile is_space (rev (dropWhile is_space s)))"

text \<open>
  \<open>xs.find(p)\<close> followed by \<open>if (match)\<close>: the first element satisfying \<open>p\<close>, when it
  is truthy (a non-empty string).
\<close>

definition find_truthy :: "(string \<Rightarrow> bool) \<Rightarrow> string list \<Rightarrow> string option" where
  "find_truthy p xs = (case find p xs of None \<Rightarrow> None | Some x \<Rightarrow> if x = [] then None else Some x)"

section \<open>services/language-handler.js\<close>

text \<open>
  \<open>LANGUAGE_MAPPINGS\<close> is a module-level object whose values are arrays: shared, mutable
  state. It is modelled as an association list in the object's key order, and every
  operation that can reach it takes the current table.
\<close>

type_synonym language_table = "(string \<times> string list) list"

definition LANGUAGE_MAPPINGS :: language_table where
  "LANGUAGE_MAPPINGS =
    [(''en'', [''en'', ''en-US'', ''en-GB'', ''en-CA'', ''en-AU'']),
     (''en-US'', [''en-US'', ''en'']),
     (''en-GB'', [''en-GB'', ''en'']),
     (''es'', [''es'', ''es-ES'', ''es-MX'', ''es-AR'']),
     (''es-ES'', [''es-ES'', ''es'']),
     (''es-MX'', [''es-MX'', ''es'']),
     (''fr'', [''fr'', ''fr-FR'', ''fr-CA'']),
     (''fr-FR'', [''fr-FR'', ''fr'']),
     (''fr-CA'', [''fr-CA'', ''fr'']),
     (''de'', [''de'', ''de-DE'', ''de-AT'', ''de-CH'']),
     (''de-DE'', [''de-DE'', ''de'']),
     (''pt'', [''pt'', ''pt-BR'', ''pt-PT'']),
     (''pt-BR'', [''pt-BR'', ''pt'']),
     (''pt-PT'', [''pt-PT'', ''pt'']),
     (''it'', [''it'', ''it-IT'']),
     (''ja'', [''ja'', ''ja-JP'']),
     (''ko'', [''ko'', ''ko-KR'']),
     (''zh'', [''zh'', ''zh-CN'', ''zh-TW'', ''zh-HK'']),
     (''zh-CN'', [''zh-CN'', ''zh'']),
     (''zh-TW'', [''zh-TW'', ''zh'']),
     (''ru'', [''ru'', ''ru-RU'']),
     (''ar'', [''ar'', ''ar-SA'', ''ar-EG'']),
     (''hi'', [''hi'', ''hi-IN'']),
     (''nl'', [''nl'', ''nl-NL'']),
     (''sv'', [''sv'', ''sv-SE'']),
     (''no'', [''no'', ''nb'', ''nn'']),
     (''da'', [''da'', ''da-DK'']),
     (''fi'', [''fi'', ''fi-FI'']),
     (''pl'', [''pl'', ''pl-PL'']),
     (''tr'', [''tr'', ''tr-TR'']),
     (''he'', [''he'', ''iw'']),
     (''th'', [''th'', ''th-TH'']),
     (''vi'', [''vi'', ''vi-VN'']),
     (''id'', [''id'', ''id-ID'']),
     (''ms'', [''ms'', ''ms-MY''])]"

definition LANGUAGE_PRIORITY :: "string list" where
  "LANGUAGE_PRIORITY =
    [''en'', ''es'', ''fr'', ''de'', ''pt'', ''it'', ''ja'', ''ko'', ''zh'', ''ru'', ''ar'', ''hi'']"

text \<open>
  \<open>this.supportedLanguages\<close>: the keys of the table, copied into a \<open>Set\<close> once, when the
  singleton handler is constructed at module load.
\<close>

definition supportedLanguages :: "string list" where
  "supportedLanguages = map fst LANGUAGE_MAPPINGS"

text \<open>The \<open>for (const [key, variants] of Object.entries(LANGUAGE_MAPPINGS))\<close> loop.\<close>

fun find_variant_key :: "language_table \<Rightarrow> string \<Rightarrow> string option" where
  "find_variant_key [] normalized = None"
| "find_variant_key ((key, variants) # rest) normalized =
     (if normalized \<in> set variants then Some key else find_variant_key rest normalized)"

definition normalizeLanguageCode :: "language_table \<Rightarrow> string \<Rightarrow> string" where
  "normalizeLanguageCode tbl languageCode =
     (if languageCode = [] then ''en''
      else
        let normalized = trim (toLowerCase languageCode) in
        if normalized \<in> set supportedLanguages then normalized
        else
          let baseLang = split_first normalized in
          if baseLang \<in> set supportedLanguages then baseLang
          else (case find_variant_key tbl normalized of Some key \<Rightarrow> key | None \<Rightarrow> ''en''))"

record language_match =
  selectedLanguage :: string
  matchType :: string
  confidence :: rat
  availableAlternatives :: "string list"

text \<open>Step 3 of \<open>findBestLanguageMatch\<close>: the loop over \<open>LANGUAGE_PRIORITY\<close>.\<close>

fun priority_match :: "language_table \<Rightarrow> string list \<Rightarrow> string list \<Rightarrow> string option" where
  "priority_match tbl availableLanguages [] = None"
| "priority_match tbl availableLanguages (priorityLang # rest) =
     (case find_truthy (\<lambda>lang. normalizeLanguageCode tbl lang = priorityLang) availableLanguages of
        Some priorityMatch \<Rightarrow> Some priorityMatch
      | None \<Rightarrow> priority_match tbl availableLanguages rest)"

definition findBestLanguageMatch :: "language_table \<Rightarrow> string list \<Rightarrow> string \<Rightarrow> language_match" where
  "findBestLanguageMatch tbl availableLanguages preferredLanguage =
     (if availableLanguages = [] then
        \<lparr>selectedLanguage = preferredLanguage, matchType = ''none'', confidence = 0,
         availableAlternatives = []\<rparr>
      else
        let normalizedPreferred = normalizeLanguageCode tbl preferredLanguage in
        case find_truthy (\<lambda>lang. normalizeLanguageCode tbl lang = normalizedPreferred)
               availableLanguages of
          Some exactMatch \<Rightarrow>
            \<lparr>selectedLanguage = exactMatch, matchType = ''exact'', confidence = 1,
             availableAlternatives = filter (\<lambda>lang. lang \<noteq> exactMatch) availableLanguages\<rparr>
        | None \<Rightarrow>
           (case find_truthy
                   (\<lambda>lang. let normalized = normalizeLanguageCode tbl lang;
                                baseLang = split_first normalizedPreferred
                            in startsWith normalized baseLang \<or> normalized = baseLang)
                   availableLanguages of
              Some familyMatch \<Rightarrow>
                \<lparr>selectedLanguage = familyMatch, matchType = ''family'', confidence = 8 / 10,
                 availableAlternatives = filter (\<lambda>lang. lang \<noteq> familyMatch) availableLanguages\<rparr>
            | None \<Rightarrow>
               (case priority_match tbl availableLanguages LANGUAGE_PRIORITY of
                  Some priorityMatch \<Rightarrow>
                    \<lparr>selectedLanguage = priorityMatch, matchType = ''priority_fallback'',
                     confidence = 6 / 10,
                     availableAlternatives =
                       filter (\<lambda>lang. lang \<noteq> priorityMatch) availableLanguages\<rparr>
                | None \<Rightarrow>
                    \<lparr>selectedLanguage = hd availableLanguages, matchType = ''first_available'',
                     confidence = 3 / 10, availableAlternatives = tl availableLanguages\<rparr>)))"

text \<open>\<open>LANGUAGE_MAPPINGS[key] = array\<close>, as the effect of a \<open>push\<close> on the array stored there.\<close>

fun table_store :: "language_table \<Rightarrow> string \<Rightarrow> string list \<Rightarrow> language_table" where
  "table_store [] key array = []"
| "table_store ((k, v) # rest) key array =
     (if k = key then (k, array) # rest else (k, v) # table_store rest key array)"

text \<open>
  \<open>getLanguageVariants\<close>. When the normalized code is a key, \<open>variants\<close> is the very array
  stored in the table, so the \<open>push\<close> writes to the table; otherwise it is the fresh
  array \<open>[normalized]\<close>. The result is a new array in both cases. The function returns
  its result and the table it leaves.
\<close>

definition getLanguageVariants :: "language_table \<Rightarrow> string \<Rightarrow> string list \<times> language_table" where
  "getLanguageVariants tbl languageCode =
     (let normalized = normalizeLanguageCode tbl languageCode;
          baseLang = split_first normalized
      in case map_of tbl normalized of
           Some variants \<Rightarrow>
             (case (if baseLang \<noteq> normalized then map_of tbl baseLang else None) of
                Some baseVariants \<Rightarrow>
                  (uniq (variants @ baseVariants),
                   table_store tbl normalized (variants @ baseVariants))
              | None \<Rightarrow> (uniq variants, tbl))
         | None \<Rightarrow>
             (case (if baseLang \<noteq> normalized then map_of tbl baseLang else None) of
                Some baseVariants \<Rightarrow> (uniq ([normalized] @ baseVariants), tbl)
              | None \<Rightarrow> (uniq [normalized], tbl)))"



datatype country_value =
  CountryCode string
| InheritedProperty string



record language_config =
  primaryLanguage :: string
  fallbackLanguages :: "string list"
  lc_availableLanguages :: "string list"
  matchConfidence :: rat
  lc_matchType :: string
  lc_country :: "country_value option"
  retryLanguages :: "string list option"
  lc_langCode :: "string option"
  lc_languageHint :: "string option"


text \<open>
  The Language Matcher as a state machine over the table: one request is one operation,
  which returns a value and leaves a table.
\<close>

datatype language_op =
  Normalize string
| BestMatch "string list" string
| Variants string

datatype language_value =
  Code string
| Match language_match
| Codes "string list"

fun language_step :: "language_table \<Rightarrow> language_op \<Rightarrow> language_value \<times> language_table" where
  "language_step tbl (Normalize c) = (Code (normalizeLanguageCode tbl c), tbl)"
| "language_step tbl (BestMatch available preferred) =
     (Match (findBestLanguageMatch tbl available preferred), tbl)"
| "language_step tbl (Variants c) =
     (let (vs, tbl') = getLanguageVariants tbl c in (Codes vs, tbl'))"

fun language_run :: "language_table \<Rightarrow> language_op list \<Rightarrow> language_table" where
  "language_run tbl [] = tbl"
| "language_run tbl (op # ops) = language_run (snd (language_step tbl op)) ops"

section \<open>types/interfaces.js\<close>

record video_metadata =
  md_videoId :: string
  title :: string
  description :: "string option"
  duration :: "int option"
  isLive :: bool
  isUpcoming :: bool
  hasClosedCaptions :: bool
  availableLanguages :: "string list"

text \<open>The preferences a caller passes: every property may be absent.\<close>

record preferences =
  p_preferredLanguage :: "string option"
  p_format :: "string option"
  p_fallbackToAudio :: "bool option"

text \<open>\<open>{ ...DEFAULT_PREFERENCES, ...preferences }\<close>.\<close>

record prefs =
  preferredLanguage :: string
  prefs_format :: string
  fallbackToAudio :: bool

definition DEFAULT_PREFERENCES :: prefs where
  "DEFAULT_PREFERENCES = \<lparr>preferredLanguage = ''en'', prefs_format = ''txt'', fallbackToAudio = True\<rparr>"

definition merge_preferences :: "preferences \<Rightarrow> prefs" where
  "merge_preferences p =
     \<lparr>preferredLanguage =
        (case p_preferredLanguage p of Some l \<Rightarrow> l | None \<Rightarrow> preferredLanguage DEFAULT_PREFERENCES),
      prefs_format = (case p_format p of Some f \<Rightarrow> f | None \<Rightarrow> prefs_format DEFAULT_PREFERENCES),
      fallbackToAudio =
        (case p_fallbackToAudio p of Some b \<Rightarrow> b | None \<Rightarrow> fallbackToAudio DEFAULT_PREFERENCES)\<rparr>"

record segment =
  seg_text :: string
  seg_start :: nat
  seg_duration :: nat

section \<open>services/strategy-selector.js\<close>

definition YOUTUBE_TRANSCRIPT :: string where
  "YOUTUBE_TRANSCRIPT = ''youtube-transcript''"

definition YOUTUBE_CAPTION_EXTRACTOR :: string where
  "YOUTUBE_CAPTION_EXTRACTOR = ''youtube-caption-extractor''"

definition WHISPER_AUDIO :: string where
  "WHISPER_AUDIO = ''whisper-audio''"

definition isVideoSuitableForExtraction :: "video_metadata \<Rightarrow> bool" where
  "isVideoSuitableForExtraction metadata =
     (if isLive metadata then False
      else if isUpcoming metadata then False
      else if (case duration metadata of Some d \<Rightarrow> 0 < d \<and> d < 10 | None \<Rightarrow> False) then False
      else True)"

definition hasPreferredLanguage :: "string list \<Rightarrow> string \<Rightarrow> bool" where
  "hasPreferredLanguage available preferred =
     (if available = [] then False
      else if preferred \<in> set available then True
      else let langPrefix = split_first preferred
           in list_ex (\<lambda>lang. startsWith lang langPrefix) available)"

definition selectStrategy :: "video_metadata \<Rightarrow> preferences \<Rightarrow> string list" where
  "selectStrategy metadata preferences =
     (let prefs = merge_preferences preferences in
      if \<not> isVideoSuitableForExtraction metadata then
        (if fallbackToAudio prefs then [WHISPER_AUDIO] else [])
      else
        let strategies =
              (if hasClosedCaptions metadata then
                 (if hasPreferredLanguage (availableLanguages metadata) (preferredLanguage prefs)
                  then [YOUTUBE_TRANSCRIPT, YOUTUBE_CAPTION_EXTRACTOR]
                  else [YOUTUBE_TRANSCRIPT, YOUTUBE_CAPTION_EXTRACTOR])
               else []);
            strategies = (if fallbackToAudio prefs then strategies @ [WHISPER_AUDIO] else strategies)
        in uniq strategies)"

text \<open>
  The configuration object that \<open>getMethodConfig\<close> builds and the extractor reads. A
  property that a branch does not set is \<open>None\<close>; the extractor's default parameter
  \<open>config = {}\<close> is the record with every field \<open>None\<close>.
\<close>

record config =
  cfg_videoId :: "string option"
  cfg_language :: "string option"
  cfg_format :: "string option"
  languageConfig :: "language_config option"
  country :: "country_value option"
  cfg_fallbackLanguages :: "string list option"
  cfg_availableLanguages :: "string list option"
  langCode :: "string option"
  cfg_title :: "string option"
  cfg_description :: "string option"
  cfg_duration :: "int option"
  model :: "string option"
  response_format :: "string option"
  timestamp_granularities :: "string list option"
  languageHint :: "string option"

definition empty_config :: config where
  "empty_config =
     \<lparr>cfg_videoId = None, cfg_language = None, cfg_format = None, languageConfig = None,
      country = None, cfg_fallbackLanguages = None, cfg_availableLanguages = None,
      langCode = None, cfg_title = None, cfg_description = None, cfg_duration = None,
      model = None, response_format = None, timestamp_granularities = None,
      languageHint = None\<rparr>"


section \<open>services/unified-extractor.js: the fallback executor\<close>

text \<open>What one of the three \<open>_extractWith...\<close> methods returns.\<close>

record backend_result =
  transcript :: "string option"
  language :: string
  format :: string
  res_confidence :: "rat option"
  res_segments :: "segment list"
  audioSizeBytes :: "nat option"

text \<open>\<open>TranscriptResult\<close>: the backend's fields, spread, plus those \<open>extractTranscript\<close> sets.\<close>

record transcript_result = backend_result +
  success :: bool
  res_method :: string
  error :: "string option"
  extractionTime :: int

text \<open>
  The outside world (network, the OpenAI client, the clock) is a state \<open>'w\<close> threaded
  through every call. A backend either throws an \<open>Error\<close> with a message (\<open>Inl\<close>) or
  returns its result (\<open>Inr\<close>), and leaves a new world.
\<close>

type_synonym ('w, 'a) effect = "'w \<Rightarrow> (string + 'a) \<times> 'w"

record 'w env =
  now :: "'w \<Rightarrow> int"
  extractWithYouTubeTranscript :: "string \<Rightarrow> config \<Rightarrow> ('w, backend_result) effect"
  extractWithCaptionExtractor :: "string \<Rightarrow> config \<Rightarrow> ('w, backend_result) effect"
  extractWithWhisperAudio :: "string \<Rightarrow> config \<Rightarrow> ('w, backend_result) effect"

text \<open>The \<open>switch (method)\<close> of \<open>extractTranscript\<close>; the default case throws.\<close>

definition dispatch :: "'w env \<Rightarrow> string \<Rightarrow> string \<Rightarrow> config \<Rightarrow> ('w, backend_result) effect" where
  "dispatch e videoId m cfg w =
     (if m = YOUTUBE_TRANSCRIPT then extractWithYouTubeTranscript e videoId cfg w
      else if m = YOUTUBE_CAPTION_EXTRACTOR then extractWithCaptionExtractor e videoId cfg w
      else if m = WHISPER_AUDIO then extractWithWhisperAudio e videoId cfg w
      else (Inl (''Unsupported extraction method: '' @ m), w))"

text \<open>
  \<open>extractTranscript\<close>: the backend's result with \<open>success: true\<close>, or, in the \<open>catch\<close>,
  a failure record carrying the thrown message. Neither branch throws.
\<close>

definition extractTranscript ::
  "'w env \<Rightarrow> string \<Rightarrow> string \<Rightarrow> config \<Rightarrow> ('w, transcript_result) effect" where
  "extractTranscript e videoId m cfg w =
     (let startTime = now e w in
      case dispatch e videoId m cfg w of
        (Inr r, w') \<Rightarrow>
          (Inr (backend_result.extend r
             \<lparr>success = True, res_method = m, error = None, extractionTime = now e w' - startTime\<rparr>), w')
      | (Inl msg, w') \<Rightarrow>
          (Inr \<lparr>transcript = Some [], language = or_default (cfg_language cfg) ''en'',
                format = or_default (cfg_format cfg) ''txt'', res_confidence = None, res_segments = [],
                audioSizeBytes = None, success = False, res_method = m, error = Some msg,
                extractionTime = now e w' - startTime\<rparr>, w'))"

text \<open>\<open>result.transcript?.length || 0\<close>.\<close>

definition transcript_length :: "'a transcript_result_scheme \<Rightarrow> nat" where
  "transcript_length r = (case transcript r of None \<Rightarrow> 0 | Some t \<Rightarrow> length t)"

text \<open>\<open>result.success && result.transcript && result.transcript.length > 50\<close>.\<close>

definition sufficient :: "transcript_result \<Rightarrow> bool" where
  "sufficient r =
     (success r \<and> (case transcript r of None \<Rightarrow> False | Some t \<Rightarrow> t \<noteq> [] \<and> 50 < length t))"

text \<open>
  The \<open>for\<close> loop of \<open>extractWithFallback\<close> over the methods not yet tried, with the
  \<open>errors\<close> array so far: \<open>Inr result\<close> is the early \<open>return result\<close>, \<open>Inl errors\<close>
  is falling out of the loop.
\<close>

fun tryMethods ::
  "'w env \<Rightarrow> string \<Rightarrow> config \<Rightarrow> string list \<Rightarrow> string list \<Rightarrow> 'w
     \<Rightarrow> (string list + transcript_result) \<times> 'w" where
  "tryMethods e videoId cfg [] errors w = (Inl errors, w)"
| "tryMethods e videoId cfg (m # ms) errors w =
     (case extractTranscript e videoId m cfg w of
        (Inr result, w') \<Rightarrow>
          if sufficient result then (Inr result, w')
          else tryMethods e videoId cfg ms
                 (errors @ [m @ '': Insufficient content ('' @ toString (transcript_length result)
                              @ '' chars)'']) w'
      | (Inl msg, w') \<Rightarrow> tryMethods e videoId cfg ms (errors @ [m @ '': '' @ msg]) w')"

definition extractWithFallback ::
  "'w env \<Rightarrow> string \<Rightarrow> string list \<Rightarrow> config \<Rightarrow> 'w \<Rightarrow> transcript_result \<times> 'w" where
  "extractWithFallback e videoId methods cfg w =
     (case tryMethods e videoId cfg methods [] w of
        (Inr result, w') \<Rightarrow> (result, w')
      | (Inl errors, w') \<Rightarrow>
          (\<lparr>transcript = Some [], language = or_default (cfg_language cfg) ''en'',
            format = or_default (cfg_format cfg) ''txt'', res_confidence = None, res_segments = [],
            audioSizeBytes = None, success = False, res_method = ''none'',
            error = Some (''All extraction methods failed. Errors: '' @ join ''; '' errors),
            extractionTime = 0\<rparr>, w'))"




text \<open>\<open>_formatSrtTime\<close> and \<open>_formatAsSrt\<close>, on whole numbers of milliseconds.\<close>

definition formatSrtTime :: "nat \<Rightarrow> string" where
  "formatSrtTime milliseconds =
     (let totalSeconds = milliseconds div 1000;
          hours = totalSeconds div 3600;
          minutes = (totalSeconds mod 3600) div 60;
          seconds = totalSeconds mod 60;
          ms = milliseconds mod 1000
      in padStart 2 CHR ''0'' (toString hours) @ '':'' @ padStart 2 CHR ''0'' (toString minutes)
         @ '':'' @ padStart 2 CHR ''0'' (toString seconds) @ '','' @ padStart 3 CHR ''0'' (toString ms))"

definition newline :: string where
  "newline = [CHR 0x0A]"

definition srtBlock :: "nat \<Rightarrow> segment \<Rightarrow> string" where
  "srtBlock index segment =
     (let startTime = formatSrtTime (seg_start segment);
          endTime = formatSrtTime (seg_start segment + seg_duration segment)
      in toString (index + 1) @ newline @ startTime @ '' --> '' @ endTime @ newline
         @ seg_text segment @ newline)"

definition formatAsSrt :: "segment list \<Rightarrow> string" where
  "formatAsSrt segments = join newline (map (\<lambda>(index, segment). srtBlock index segment) (enumerate 0 segments))"

section \<open>Notions used to state the properties\<close>

text \<open>
  What every method of the list would yield if each were attempted in turn from world
  \<open>w\<close>: the outcome of the call to \<open>extractTranscript\<close> and the world it leaves.
\<close>

fun attempts ::
  "'w env \<Rightarrow> string \<Rightarrow> config \<Rightarrow> string list \<Rightarrow> 'w \<Rightarrow> ((string + transcript_result) \<times> 'w) list" where
  "attempts e videoId cfg [] w = []"
| "attempts e videoId cfg (m # ms) w =
     (let a = extractTranscript e videoId m cfg w in a # attempts e videoId cfg ms (snd a))"

text \<open>An attempt that yields \<open>success = true\<close> and a transcript longer than 50 characters.\<close>

fun accepted :: "string + transcript_result \<Rightarrow> bool" where
  "accepted (Inl msg) = False"
| "accepted (Inr r) = (success r \<and> 50 < transcript_length r)"

text \<open>
  A sample environment whose world is the log of backend calls: the first backend throws,
  the second returns 60 characters, the third throws for want of an API key.
\<close>

definition demo_env :: "string list env" where
  "demo_env =
     \<lparr>now = (\<lambda>w. int (length w)),
      extractWithYouTubeTranscript =
        (\<lambda>videoId cfg w. (Inl ''youtube-transcript: No transcript data available'',
                          w @ [''youtube-transcript''])),
      extractWithCaptionExtractor =
        (\<lambda>videoId cfg w. (Inr \<lparr>transcript = Some (replicate 60 CHR ''a''), language = ''en'',
                                format = ''txt'', res_confidence = Some (9 / 10),
                                res_segments = [], audioSizeBytes = None\<rparr>,
                          w @ [''youtube-caption-extractor''])),
      extractWithWhisperAudio =
        (\<lambda>videoId cfg w. (Inl ''OpenAI API key not configured for audio transcription'',
                          w @ [''whisper-audio'']))\<rparr>"

text \<open>Sample videos and preferences.\<close>

definition live_captioned_video :: video_metadata where
  "live_captioned_video =
     \<lparr>md_videoId = ''dQw4w9WgXcQ'', title = ''Live stream'', description = Some [],
      duration = Some 0, isLive = True, isUpcoming = False, hasClosedCaptions = True,
      availableLanguages = [''en'']\<rparr>"

definition captioned_video :: video_metadata where
  "captioned_video = live_captioned_video\<lparr>isLive := False, duration := Some 212\<rparr>"

definition short_video :: video_metadata where
  "short_video = live_captioned_video\<lparr>isLive := False, duration := Some 5\<rparr>"


definition no_preferences :: preferences where
  "no_preferences = \<lparr>p_preferredLanguage = None, p_format = None, p_fallbackToAudio = None\<rparr>"


text \<open>
  The subtitle encoding in the words of the specification, written without the functions
  of the code: decimal digits, a field zero-padded to two or three digits, the four
  fields of a timestamp taken from the total of milliseconds, the block of a segment
  with its index, and the blocks of a list, numbered from \<open>n\<close>, with one line feed
  between two blocks.
\<close>

definition decimal_digit :: "nat \<Rightarrow> char" where
  "decimal_digit d = char_of (48 + d)"

fun decimal :: "nat \<Rightarrow> string" where
  "decimal n = (if n < 10 then [decimal_digit n] else decimal (n div 10) @ [decimal_digit (n mod 10)])"

declare decimal.simps [simp del]

definition two_digits :: "nat \<Rightarrow> string" where
  "two_digits n = (if n < 10 then CHR ''0'' # decimal n else decimal n)"

definition three_digits :: "nat \<Rightarrow> string" where
  "three_digits n =
     (if n < 10 then CHR ''0'' # CHR ''0'' # decimal n
      else if n < 100 then CHR ''0'' # decimal n else decimal n)"

definition srt_timestamp :: "nat \<Rightarrow> string" where
  "srt_timestamp t =
     two_digits (t div 3600000) @ '':'' @ two_digits (t div 60000 mod 60) @ '':''
     @ two_digits (t div 1000 mod 60) @ '','' @ three_digits (t mod 1000)"

definition srt_block :: "nat \<Rightarrow> segment \<Rightarrow> string" where
  "srt_block n seg =
     decimal n @ [CHR 0x0A]
     @ srt_timestamp (seg_start seg) @ '' --> ''
     @ srt_timestamp (seg_start seg + seg_duration seg) @ [CHR 0x0A]
     @ seg_text seg @ [CHR 0x0A]"

fun srt_blocks :: "nat \<Rightarrow> segment list \<Rightarrow> string" where
  "srt_blocks n [] = []"
| "srt_blocks n [seg] = srt_block n seg"
| "srt_blocks n (seg # next # rest) =
     srt_block n seg @ [CHR 0x0A] @ srt_blocks (Suc n) (next # rest)"

text \<open>Two sample segments: one at 0 ms for 1500 ms, one at 1 h 2 min 3.004 s for 996 ms.\<close>

definition sample_segments :: "segment list" where
  "sample_segments =
     [\<lparr>seg_text = ''Hello there'', seg_start = 0, seg_duration = 1500\<rparr>,
      \<lparr>seg_text = ''General'', seg_start = 3723004, seg_duration = 996\<rparr>]"

text \<open>An ASCII capital letter, and a code without a hyphen.\<close>

definition is_upper :: "char \<Rightarrow> bool" where
  "is_upper c = (65 \<le> (of_char c :: nat) \<and> (of_char c :: nat) \<le> 90)"

definition hyphen_free :: "string \<Rightarrow> bool" where
  "hyphen_free s = (CHR ''-'' \<notin> set s)"

section \<open>Properties of the fallback executor\<close>

lemma sufficient_iff: "sufficient r \<longleftrightarrow> success r \<and> 50 < transcript_length r"
  by (auto simp: sufficient_def transcript_length_def split: option.splits)

lemma length_attempts [simp]: "length (attempts e v cfg ms w) = length ms"
  by (induction ms arbitrary: w) (simp_all add: Let_def)

lemma tryMethods_accept:
  "i < length ms \<Longrightarrow> accepted (fst (attempts e v cfg ms w ! i)) \<Longrightarrow>
   \<forall>j<i. \<not> accepted (fst (attempts e v cfg ms w ! j)) \<Longrightarrow>
   \<exists>r. attempts e v cfg ms w ! i = (Inr r, snd (attempts e v cfg ms w ! i)) \<and>
       tryMethods e v cfg ms errs w = (Inr r, snd (attempts e v cfg ms w ! i))"
proof (induction ms arbitrary: i w errs)
  case Nil
  then show ?case by simp
next
  case (Cons m ms)
  obtain a w1 where a: "extractTranscript e v m cfg w = (a, w1)"
    by (cases "extractTranscript e v m cfg w")
  show ?case
  proof (cases i)
    case 0
    with Cons.prems a show ?thesis
      by (cases a) (simp_all add: Let_def sufficient_iff)
  next
    case (Suc k)
    from Cons.prems(3) Suc have na: "\<not> accepted a"
      using a by (auto simp: Let_def dest: spec[of _ 0])
    have k: "k < length ms" using Cons.prems(1) Suc by simp
    have acc: "accepted (fst (attempts e v cfg ms w1 ! k))"
      using Cons.prems(2) Suc a by (simp add: Let_def)
    have rej: "\<forall>j<k. \<not> accepted (fst (attempts e v cfg ms w1 ! j))"
    proof (intro allI impI)
      fix j assume "j < k"
      then have "Suc j < i" using Suc by simp
      with Cons.prems(3) have "\<not> accepted (fst (attempts e v cfg (m # ms) w ! Suc j))" by blast
      then show "\<not> accepted (fst (attempts e v cfg ms w1 ! j))" using a by (simp add: Let_def)
    qed
    have step: "\<exists>r. attempts e v cfg ms w1 ! k = (Inr r, snd (attempts e v cfg ms w1 ! k)) \<and>
        tryMethods e v cfg ms errs' w1 = (Inr r, snd (attempts e v cfg ms w1 ! k))" for errs'
      by (rule Cons.IH[OF k acc rej])
    show ?thesis
      using step na a Suc by (cases a) (auto simp: Let_def sufficient_iff)
  qed
qed

lemma tryMethods_Inr:
  "tryMethods e v cfg ms errs w = (Inr r, w') \<Longrightarrow> sufficient r"
  by (induction ms arbitrary: errs w) (auto split: prod.splits sum.splits if_splits)

lemma attempts_take:
  "i < length ms \<Longrightarrow> attempts e v cfg (take (Suc i) ms) w ! i = attempts e v cfg ms w ! i"
proof (induction ms arbitrary: i w)
  case Nil
  then show ?case by simp
next
  case (Cons m ms)
  then show ?case by (cases i) (simp_all add: Let_def)
qed

lemma attempts_take_below:
  "j < i \<Longrightarrow> i < length ms \<Longrightarrow> attempts e v cfg (take (Suc i) ms) w ! j = attempts e v cfg ms w ! j"
proof (induction ms arbitrary: i j w)
  case Nil
  then show ?case by simp
next
  case (Cons m ms)
  show ?case
  proof (cases j)
    case 0
    then show ?thesis by (simp add: Let_def)
  next
    case (Suc j')
    with Cons.prems obtain i' where i': "i = Suc i'" by (cases i) auto
    with Cons.prems Suc have "j' < i'" "i' < length ms" by auto
    from Cons.IH[OF this] show ?thesis using Suc i' by (simp add: Let_def)
  qed
qed

lemma extractWithFallback_accept:
  assumes "i < length ms" "accepted (fst (attempts e v cfg ms w ! i))"
    "\<forall>j<i. \<not> accepted (fst (attempts e v cfg ms w ! j))"
  shows "(Inr (fst (extractWithFallback e v ms cfg w)), snd (extractWithFallback e v ms cfg w))
           = attempts e v cfg ms w ! i"
proof -
  from tryMethods_accept[OF assms, of "[]"] obtain r where
    "attempts e v cfg ms w ! i = (Inr r, snd (attempts e v cfg ms w ! i))"
    "tryMethods e v cfg ms [] w = (Inr r, snd (attempts e v cfg ms w ! i))" by blast
  then show ?thesis by (simp add: extractWithFallback_def)
qed

text \<open>
  C1. Let attempt \<open>i\<close> be the first one that yields \<open>success = true\<close> and a transcript
  longer than 50 characters. Then \<open>extractWithFallback\<close> returns the outcome of attempt
  \<open>i\<close> and leaves the world that attempt \<open>i\<close> left, so that no later method was
  invoked: the call is the same as with the list cut after method \<open>i\<close>. And every result
  with \<open>success = true\<close> has a transcript longer than 50 characters.
\<close>

theorem extractWithFallback_first_sufficient:
  "(i < length ms \<and> accepted (fst (attempts e v cfg ms w ! i)) \<and>
      (\<forall>j<i. \<not> accepted (fst (attempts e v cfg ms w ! j)))
    \<longrightarrow> (Inr (fst (extractWithFallback e v ms cfg w)), snd (extractWithFallback e v ms cfg w))
           = attempts e v cfg ms w ! i
        \<and> extractWithFallback e v (take (Suc i) ms) cfg w = extractWithFallback e v ms cfg w)
   \<and> (success (fst (extractWithFallback e v ms cfg w))
    \<longrightarrow> 50 < transcript_length (fst (extractWithFallback e v ms cfg w)))"
proof (intro conjI impI)
  assume h: "i < length ms \<and> accepted (fst (attempts e v cfg ms w ! i)) \<and>
      (\<forall>j<i. \<not> accepted (fst (attempts e v cfg ms w ! j)))"
  then have full: "(Inr (fst (extractWithFallback e v ms cfg w)), snd (extractWithFallback e v ms cfg w))
           = attempts e v cfg ms w ! i"
    by (intro extractWithFallback_accept) auto
  then show "(Inr (fst (extractWithFallback e v ms cfg w)), snd (extractWithFallback e v ms cfg w))
           = attempts e v cfg ms w ! i" .
  from h have i: "i < length (take (Suc i) ms)" by simp
  have acc: "accepted (fst (attempts e v cfg (take (Suc i) ms) w ! i))"
    using h by (simp add: attempts_take)
  have rej: "\<forall>j<i. \<not> accepted (fst (attempts e v cfg (take (Suc i) ms) w ! j))"
    using h by (simp add: attempts_take_below)
  have "(Inr (fst (extractWithFallback e v (take (Suc i) ms) cfg w)),
         snd (extractWithFallback e v (take (Suc i) ms) cfg w))
           = attempts e v cfg (take (Suc i) ms) w ! i"
    by (rule extractWithFallback_accept[OF i acc rej])
  also have "\<dots> = attempts e v cfg ms w ! i" using h by (simp add: attempts_take)
  finally show "extractWithFallback e v (take (Suc i) ms) cfg w = extractWithFallback e v ms cfg w"
    using full by (metis Inr_inject fst_conv snd_conv prod.collapse)
next
  assume s: "success (fst (extractWithFallback e v ms cfg w))"
  obtain x w' where x: "tryMethods e v cfg ms [] w = (x, w')"
    by (cases "tryMethods e v cfg ms [] w")
  show "50 < transcript_length (fst (extractWithFallback e v ms cfg w))"
  proof (cases x)
    case (Inl errs)
    with x s show ?thesis by (simp add: extractWithFallback_def)
  next
    case (Inr r)
    with x have "sufficient r" by (auto dest: tryMethods_Inr)
    with x Inr show ?thesis by (simp add: extractWithFallback_def sufficient_iff)
  qed
qed

text \<open>
  In the sample environment the second of three methods is the first accepted one: the
  log holds two calls, and the audio backend is never invoked.
\<close>

theorem extractWithFallback_first_sufficient_witness:
  "1 < length [YOUTUBE_TRANSCRIPT, YOUTUBE_CAPTION_EXTRACTOR, WHISPER_AUDIO]
   \<and> accepted (fst (attempts demo_env ''v'' empty_config
                      [YOUTUBE_TRANSCRIPT, YOUTUBE_CAPTION_EXTRACTOR, WHISPER_AUDIO] [] ! 1))
   \<and> \<not> accepted (fst (attempts demo_env ''v'' empty_config
                      [YOUTUBE_TRANSCRIPT, YOUTUBE_CAPTION_EXTRACTOR, WHISPER_AUDIO] [] ! 0))
   \<and> (Inr (fst (extractWithFallback demo_env ''v''
                  [YOUTUBE_TRANSCRIPT, YOUTUBE_CAPTION_EXTRACTOR, WHISPER_AUDIO] empty_config [])),
       snd (extractWithFallback demo_env ''v''
                  [YOUTUBE_TRANSCRIPT, YOUTUBE_CAPTION_EXTRACTOR, WHISPER_AUDIO] empty_config []))
      = attempts demo_env ''v'' empty_config
          [YOUTUBE_TRANSCRIPT, YOUTUBE_CAPTION_EXTRACTOR, WHISPER_AUDIO] [] ! 1
   \<and> snd (attempts demo_env ''v'' empty_config
          [YOUTUBE_TRANSCRIPT, YOUTUBE_CAPTION_EXTRACTOR, WHISPER_AUDIO] [] ! 1)
      = [''youtube-transcript'', ''youtube-caption-extractor'']
   \<and> success (fst (extractWithFallback demo_env ''v''
                  [YOUTUBE_TRANSCRIPT, YOUTUBE_CAPTION_EXTRACTOR, WHISPER_AUDIO] empty_config []))
   \<and> 50 < transcript_length (fst (extractWithFallback demo_env ''v''
                  [YOUTUBE_TRANSCRIPT, YOUTUBE_CAPTION_EXTRACTOR, WHISPER_AUDIO] empty_config []))"
proof -
  let ?ms = "[YOUTUBE_TRANSCRIPT, YOUTUBE_CAPTION_EXTRACTOR, WHISPER_AUDIO]"
  let ?at = "attempts demo_env ''v'' empty_config ?ms []"
  have a1: "accepted (fst (?at ! 1))" by code_simp
  have a0: "\<not> accepted (fst (?at ! 0))" by code_simp
  have w1: "snd (?at ! 1) = [''youtube-transcript'', ''youtube-caption-extractor'']" by code_simp
  have rej: "\<forall>j<1. \<not> accepted (fst (?at ! j))" using a0 by simp
  have len: "1 < length ?ms" by simp
  have s: "success (fst (extractWithFallback demo_env ''v'' ?ms empty_config []))" by code_simp
  note inst = extractWithFallback_first_sufficient[of 1 ?ms demo_env "''v''" empty_config "[]"]
  from inst len a1 rej
  have r: "(Inr (fst (extractWithFallback demo_env ''v'' ?ms empty_config [])),
         snd (extractWithFallback demo_env ''v'' ?ms empty_config [])) = ?at ! 1"
    by blast
  from inst s
  have l: "50 < transcript_length (fst (extractWithFallback demo_env ''v'' ?ms empty_config []))"
    by blast
  from len a1 a0 w1 r s l show ?thesis by blast
qed

text \<open>
  C10. With an empty method list \<open>extractWithFallback\<close> returns the failure record with
  method \<open>none\<close>, an empty transcript, extraction time 0 and the message
  \<open>All extraction methods failed. Errors: \<close> with no entry, and the world is untouched:
  no backend is invoked. The selector does produce the empty list: for a video of 5
  seconds with audio fallback disabled.
\<close>

theorem extractWithFallback_no_methods:
  "extractWithFallback e videoId [] cfg w =
     (\<lparr>transcript = Some [], language = or_default (cfg_language cfg) ''en'',
       format = or_default (cfg_format cfg) ''txt'', res_confidence = None, res_segments = [],
       audioSizeBytes = None, success = False, res_method = ''none'',
       error = Some ''All extraction methods failed. Errors: '', extractionTime = 0\<rparr>, w)
   \<and> selectStrategy short_video (no_preferences\<lparr>p_fallbackToAudio := Some False\<rparr>) = []"
  by (simp add: extractWithFallback_def selectStrategy_def isVideoSuitableForExtraction_def
      short_video_def live_captioned_video_def merge_preferences_def no_preferences_def)

lemma extractTranscript_never_throws:
  "\<exists>r. fst (extractTranscript e videoId m cfg w) = Inr r"
  by (simp add: extractTranscript_def Let_def split: prod.splits sum.splits)

lemma extractTranscript_catches:
  assumes "dispatch e videoId m cfg w = (Inl msg, w')"
  shows "\<exists>r. extractTranscript e videoId m cfg w = (Inr r, w') \<and> \<not> success r
             \<and> error r = Some msg \<and> transcript_length r = 0"
  using assms by (simp add: extractTranscript_def Let_def transcript_length_def)

lemma extractWithFallback_drops_thrown_message:
  assumes "dispatch e videoId m cfg w = (Inl msg, w')"
  shows "error (fst (extractWithFallback e videoId [m] cfg w))
           = Some (''All extraction methods failed. Errors: '' @ m
                   @ '': Insufficient content (0 chars)'')"
proof -
  from extractTranscript_catches[OF assms] obtain r where
    r: "extractTranscript e videoId m cfg w = (Inr r, w')" "\<not> success r"
       "transcript_length r = 0" by blast
  have "toString 0 = ''0''" by code_simp
  with r show ?thesis by (simp add: extractWithFallback_def sufficient_iff)
qed

text \<open>
  C2. When every attempt fails, the message lists one entry per method, in order and joined
  by \<open>; \<close>. The reason of an entry, however, is not the message the backend threw:
  \<open>extractTranscript\<close> catches it and returns a failure record, which the loop reports as
  \<open>Insufficient content (0 chars)\<close>. Here both backends throw a message of their own.
\<close>

theorem extractWithFallback_reports_insufficient_for_thrown_error:
  "fst (extractWithFallback demo_env ''v'' [YOUTUBE_TRANSCRIPT, WHISPER_AUDIO] empty_config []) =
     \<lparr>transcript = Some [], language = ''en'', format = ''txt'', res_confidence = None,
      res_segments = [], audioSizeBytes = None, success = False, res_method = ''none'',
      error = Some (''All extraction methods failed. Errors: '' @
                    ''youtube-transcript: Insufficient content (0 chars); '' @
                    ''whisper-audio: Insufficient content (0 chars)''),
      extractionTime = 0\<rparr>"
  by code_simp

section \<open>Properties of the strategy selector\<close>

lemma methods_distinct:
  "YOUTUBE_TRANSCRIPT \<noteq> YOUTUBE_CAPTION_EXTRACTOR" "YOUTUBE_TRANSCRIPT \<noteq> WHISPER_AUDIO"
  "YOUTUBE_CAPTION_EXTRACTOR \<noteq> WHISPER_AUDIO"
  by (simp_all add: YOUTUBE_TRANSCRIPT_def YOUTUBE_CAPTION_EXTRACTOR_def WHISPER_AUDIO_def)

text \<open>
  C3, as stated, fails: a live video with captions and audio fallback enabled gets the
  audio method alone, since the suitability check comes first.
\<close>

theorem selectStrategy_captions_live_counterexample:
  "hasClosedCaptions live_captioned_video
   \<and> fallbackToAudio (merge_preferences no_preferences)
   \<and> selectStrategy live_captioned_video no_preferences = [WHISPER_AUDIO]
   \<and> selectStrategy live_captioned_video no_preferences
       \<noteq> [YOUTUBE_TRANSCRIPT, YOUTUBE_CAPTION_EXTRACTOR, WHISPER_AUDIO]"
  by (simp add: selectStrategy_def isVideoSuitableForExtraction_def live_captioned_video_def
      merge_preferences_def no_preferences_def DEFAULT_PREFERENCES_def)

text \<open>
  C3, amended. For every video with captions that is neither live nor upcoming and whose
  duration is not strictly between 0 and 10 seconds, and with audio fallback enabled,
  \<open>selectStrategy\<close> returns the three methods in the order youtube-transcript,
  youtube-caption-extractor, whisper-audio, whatever the preferred and the available
  languages are.
\<close>

theorem selectStrategy_captions_suitable:
  assumes "hasClosedCaptions metadata" and "fallbackToAudio (merge_preferences preferences)"
    and "\<not> isLive metadata" and "\<not> isUpcoming metadata"
    and "\<not> (\<exists>d. duration metadata = Some d \<and> 0 < d \<and> d < 10)"
  shows "selectStrategy metadata preferences
           = [YOUTUBE_TRANSCRIPT, YOUTUBE_CAPTION_EXTRACTOR, WHISPER_AUDIO]"
proof -
  have "isVideoSuitableForExtraction metadata"
    using assms(3-5) by (auto simp: isVideoSuitableForExtraction_def split: option.splits)
  then show ?thesis
    using assms(1,2) methods_distinct by (simp add: selectStrategy_def Let_def)
qed

text \<open>A captioned video of 212 seconds with the default preferences.\<close>

theorem selectStrategy_captions_suitable_witness:
  "hasClosedCaptions captioned_video \<and> fallbackToAudio (merge_preferences no_preferences)
   \<and> \<not> isLive captioned_video \<and> \<not> isUpcoming captioned_video
   \<and> duration captioned_video = Some 212
   \<and> selectStrategy captioned_video no_preferences
       = [''youtube-transcript'', ''youtube-caption-extractor'', ''whisper-audio'']"
proof -
  have h: "hasClosedCaptions captioned_video" "fallbackToAudio (merge_preferences no_preferences)"
    "\<not> isLive captioned_video" "\<not> isUpcoming captioned_video"
    "duration captioned_video = Some 212"
    by (simp_all add: captioned_video_def live_captioned_video_def merge_preferences_def
        no_preferences_def DEFAULT_PREFERENCES_def)
  then have d: "\<not> (\<exists>d. duration captioned_video = Some d \<and> 0 < d \<and> d < 10)" by simp
  from selectStrategy_captions_suitable[OF h(1-4) d] h show ?thesis
    by (simp add: YOUTUBE_TRANSCRIPT_def YOUTUBE_CAPTION_EXTRACTOR_def WHISPER_AUDIO_def)
qed

text \<open>
  C4. For a video that is live, or upcoming, or whose duration is strictly between 0 and 10
  seconds, \<open>selectStrategy\<close> returns the audio method alone when audio fallback is
  enabled and the empty list otherwise; neither caption method is selected.
\<close>

theorem selectStrategy_unsuitable:
  assumes "isLive metadata \<or> isUpcoming metadata
           \<or> (\<exists>d. duration metadata = Some d \<and> 0 < d \<and> d < 10)"
  shows "selectStrategy metadata preferences
           = (if fallbackToAudio (merge_preferences preferences) then [WHISPER_AUDIO] else [])
         \<and> YOUTUBE_TRANSCRIPT \<notin> set (selectStrategy metadata preferences)
         \<and> YOUTUBE_CAPTION_EXTRACTOR \<notin> set (selectStrategy metadata preferences)"
proof -
  have "\<not> isVideoSuitableForExtraction metadata"
    using assms by (auto simp: isVideoSuitableForExtraction_def)
  then show ?thesis
    using methods_distinct by (simp add: selectStrategy_def Let_def)
qed

text \<open>A captioned video of 5 seconds, with audio fallback disabled and with the default.\<close>

theorem selectStrategy_unsuitable_witness:
  "duration short_video = Some 5 \<and> (0::int) < 5 \<and> (5::int) < 10 \<and> hasClosedCaptions short_video
   \<and> selectStrategy short_video (no_preferences\<lparr>p_fallbackToAudio := Some False\<rparr>) = []
   \<and> selectStrategy short_video no_preferences = [''whisper-audio'']"
proof -
  have d: "duration short_video = Some 5" "hasClosedCaptions short_video"
    by (simp_all add: short_video_def live_captioned_video_def)
  then have h: "isLive short_video \<or> isUpcoming short_video
           \<or> (\<exists>d. duration short_video = Some d \<and> 0 < d \<and> d < 10)" by simp
  have f: "\<not> fallbackToAudio (merge_preferences (no_preferences\<lparr>p_fallbackToAudio := Some False\<rparr>))"
    "fallbackToAudio (merge_preferences no_preferences)"
    by (simp_all add: merge_preferences_def no_preferences_def DEFAULT_PREFERENCES_def)
  from selectStrategy_unsuitable[OF h, of "no_preferences\<lparr>p_fallbackToAudio := Some False\<rparr>"]
    selectStrategy_unsuitable[OF h, of no_preferences] f d
  show ?thesis by (simp add: WHISPER_AUDIO_def)
qed

section \<open>Properties of the transcription request\<close>




section \<open>Properties of the subtitle encoding\<close>

lemma length_toString_1: "n < 10 \<Longrightarrow> length (toString n) = 1"
  by (subst toString.simps) simp

lemma length_toString_2: "10 \<le> n \<Longrightarrow> n < 100 \<Longrightarrow> length (toString n) = 2"
proof -
  assume h: "10 \<le> n" "n < 100"
  then have "n div 10 < 10" by simp
  then have "length (toString (n div 10)) = 1" by (rule length_toString_1)
  then show ?thesis using h by (subst toString.simps) simp
qed

lemma toString_not_Nil: "toString n \<noteq> []"
  by (subst toString.simps) simp

lemma length_toString_ge2: "10 \<le> n \<Longrightarrow> 2 \<le> length (toString n)"
proof -
  assume h: "10 \<le> n"
  have "toString (n div 10) \<noteq> []" by (rule toString_not_Nil)
  then have "1 \<le> length (toString (n div 10))" by (simp add: Suc_le_eq)
  then show ?thesis using h by (subst toString.simps) simp
qed

lemma length_toString_ge3: "100 \<le> n \<Longrightarrow> 3 \<le> length (toString n)"
proof -
  assume h: "100 \<le> n"
  then have "10 \<le> n div 10" by simp
  then have "2 \<le> length (toString (n div 10))" by (rule length_toString_ge2)
  then show ?thesis using h by (subst toString.simps) simp
qed

lemma digit_chars: "list_all (\<lambda>d. digit_char d = decimal_digit d) [0..<10]"
  by code_simp

lemma digit_char_decimal: "d < 10 \<Longrightarrow> digit_char d = decimal_digit d"
  using digit_chars by (simp add: list_all_iff)

lemma toString_decimal: "toString n = decimal n"
proof (induction n rule: toString.induct)
  case (1 n)
  show ?case
  proof (cases "n < 10")
    case True
    then show ?thesis
      by (subst toString.simps, subst decimal.simps) (simp add: digit_char_decimal)
  next
    case False
    then have "toString (n div 10) = decimal (n div 10)" by (rule "1.IH")
    with False show ?thesis
      by (subst toString.simps, subst decimal.simps) (simp add: digit_char_decimal)
  qed
qed

lemma padStart_two: "padStart 2 CHR ''0'' (toString n) = two_digits n"
proof (cases "n < 10")
  case True
  then show ?thesis
    by (simp add: padStart_def two_digits_def length_toString_1 toString_decimal[symmetric])
next
  case False
  then have "2 \<le> length (toString n)" by (simp add: length_toString_ge2)
  with False show ?thesis
    by (simp add: padStart_def two_digits_def toString_decimal[symmetric])
qed

lemma replicate_two: "replicate 2 c = [c, c]"
  by (simp add: numeral_2_eq_2)

lemma padStart_three: "padStart 3 CHR ''0'' (toString n) = three_digits n"
proof -
  consider "n < 10" | "10 \<le> n" "n < 100" | "100 \<le> n" by linarith
  then show ?thesis
  proof cases
    case 1
    then show ?thesis
      by (simp add: padStart_def three_digits_def length_toString_1 replicate_two
          toString_decimal[symmetric])
  next
    case 2
    then show ?thesis
      by (simp add: padStart_def three_digits_def length_toString_2 toString_decimal[symmetric])
  next
    case 3
    then have "3 \<le> length (toString n)" by (rule length_toString_ge3)
    with 3 show ?thesis
      by (simp add: padStart_def three_digits_def toString_decimal[symmetric])
  qed
qed

lemma minutes_aux: "(a mod 3600) div 60 = a div 60 mod (60::nat)"
proof -
  have "a mod (60 * 60) = 60 * (a div 60 mod 60) + a mod 60"
    by (rule mod_mult2_eq)
  then have "a mod 3600 div 60 = (60 * (a div 60 mod 60) + a mod 60) div 60" by simp
  also have "\<dots> = a div 60 mod 60" by simp
  finally show ?thesis .
qed

lemma minutes_field: "(t div 1000 mod 3600) div 60 = t div 60000 mod (60::nat)"
proof -
  have "t div 1000 div 60 = t div (1000 * 60)" by (rule div_mult2_eq[symmetric])
  then show ?thesis by (simp add: minutes_aux)
qed

lemma hours_field: "t div 1000 div 3600 = t div (3600000::nat)"
proof -
  have "t div 1000 div 3600 = t div (1000 * 3600)" by (rule div_mult2_eq[symmetric])
  then show ?thesis by simp
qed

lemma formatSrtTime_eq: "formatSrtTime t = srt_timestamp t"
  by (simp add: formatSrtTime_def srt_timestamp_def Let_def padStart_two padStart_three
      minutes_field hours_field)

lemma srtBlock_eq: "srtBlock index seg = srt_block (Suc index) seg"
  by (simp add: srtBlock_def srt_block_def formatSrtTime_eq toString_decimal newline_def Let_def)

lemma join_blocks:
  "join newline (map (\<lambda>(index, seg). srtBlock index seg) (enumerate n segs))
     = srt_blocks (Suc n) segs"
proof (induction segs arbitrary: n)
  case Nil
  then show ?case by simp
next
  case (Cons seg rest)
  show ?case
  proof (cases rest)
    case Nil
    then show ?thesis by (simp add: srtBlock_eq)
  next
    case (Cons nxt rest')
    with Cons.IH[of "Suc n"] show ?thesis by (simp add: srtBlock_eq newline_def)
  qed
qed

lemma toString_small:
  "toString 0 = ''0''" "toString 1 = ''1''" "toString 2 = ''2''" "toString 3 = ''3''"
  "toString 4 = ''4''" "toString 500 = ''500''" "toString (Suc 0) = ''1''"
  "toString (Suc (Suc 0)) = ''2''"
  by code_simp+

lemma sample_times:
  "formatSrtTime 0 = ''00:00:00,000''" "formatSrtTime 1500 = ''00:00:01,500''"
  "formatSrtTime 3723004 = ''01:02:03,004''" "formatSrtTime 3724000 = ''01:02:04,000''"
  by (simp_all add: formatSrtTime_def Let_def padStart_def toString_small replicate_two)

text \<open>
  C9. The subtitle encoding of a segment list is the blocks of its segments, numbered
  from 1, with one line feed between two blocks; each block ends in a line feed, so that
  a blank line separates two blocks. A block is the index, the timing line from the
  segment's start to its start plus duration, and the segment's text, one per line. A
  timestamp is hours, minutes and seconds by integer division, zero-padded to two digits,
  and the total modulo 1000, zero-padded to three. A segment starting at 0 ms and lasting
  1500 ms has the timing line \<open>00:00:00,000 --> 00:00:01,500\<close>, and the encoding of the
  two sample segments is written out character by character.
\<close>

theorem formatAsSrt_encoding:
  "formatAsSrt segs = srt_blocks 1 segs
   \<and> formatSrtTime 0 @ '' --> '' @ formatSrtTime (0 + 1500) = ''00:00:00,000 --> 00:00:01,500''
   \<and> formatAsSrt sample_segments =
       ''1'' @ [CHR 0x0A] @ ''00:00:00,000 --> 00:00:01,500'' @ [CHR 0x0A]
       @ ''Hello there'' @ [CHR 0x0A] @ [CHR 0x0A]
       @ ''2'' @ [CHR 0x0A] @ ''01:02:03,004 --> 01:02:04,000'' @ [CHR 0x0A]
       @ ''General'' @ [CHR 0x0A]"
proof (intro conjI)
  show "formatAsSrt segs = srt_blocks 1 segs"
    using join_blocks[of 0 segs] by (simp add: formatAsSrt_def)
  show "formatSrtTime 0 @ '' --> '' @ formatSrtTime (0 + 1500) = ''00:00:00,000 --> 00:00:01,500''"
    by (simp add: sample_times)
  show "formatAsSrt sample_segments =
       ''1'' @ [CHR 0x0A] @ ''00:00:00,000 --> 00:00:01,500'' @ [CHR 0x0A]
       @ ''Hello there'' @ [CHR 0x0A] @ [CHR 0x0A]
       @ ''2'' @ [CHR 0x0A] @ ''01:02:03,004 --> 01:02:04,000'' @ [CHR 0x0A]
       @ ''General'' @ [CHR 0x0A]"
    by (simp add: formatAsSrt_def sample_segments_def srtBlock_def Let_def newline_def
        sample_times toString_small)
qed

section \<open>Properties of the language handler\<close>

lemma lower_char_not_upper: "\<not> is_upper (lower_char c)"
proof -
  let ?n = "of_char c :: nat"
  have lt: "?n < 256" by simp
  show ?thesis
  proof (cases "(65 \<le> ?n \<and> ?n \<le> 90) \<or> (192 \<le> ?n \<and> ?n \<le> 222 \<and> ?n \<noteq> 215)")
    case True
    then have "lower_char c = char_of (?n + 32)" by (auto simp: lower_char_def Let_def)
    moreover have "(?n + 32) mod 256 = ?n + 32" using True by auto
    ultimately have "(of_char (lower_char c) :: nat) = ?n + 32" by simp
    then show ?thesis using True by (auto simp: is_upper_def)
  next
    case False
    then have "lower_char c = c" by (auto simp: lower_char_def Let_def)
    then show ?thesis using False by (auto simp: is_upper_def)
  qed
qed

lemma set_trim: "set (trim s) \<subseteq> set s"
proof
  fix x assume "x \<in> set (trim s)"
  then have "x \<in> set (dropWhile is_space (rev (dropWhile is_space s)))" by (simp add: trim_def)
  then have "x \<in> set (rev (dropWhile is_space s))" by (rule set_dropWhileD)
  then have "x \<in> set (dropWhile is_space s)" by simp
  then show "x \<in> set s" by (rule set_dropWhileD)
qed

lemma normalized_no_upper: "list_all (\<lambda>c. \<not> is_upper c) (trim (toLowerCase s))"
proof -
  have "\<forall>c \<in> set (toLowerCase s). \<not> is_upper c"
    by (auto simp: toLowerCase_def lower_char_not_upper)
  with set_trim[of "toLowerCase s"] show ?thesis by (auto simp: list_all_iff)
qed

lemma keys_checked:
  "list_all (\<lambda>k. hyphen_free k \<or> list_ex is_upper k) supportedLanguages"
  by code_simp

lemma variants_checked:
  "list_all (\<lambda>(k, vs). list_all (\<lambda>v. v \<in> set supportedLanguages \<or> list_ex is_upper v \<or> hyphen_free k) vs)
     LANGUAGE_MAPPINGS"
  by code_simp

lemma key_hyphen_free:
  assumes "n \<in> set supportedLanguages" and "list_all (\<lambda>c. \<not> is_upper c) n"
  shows "hyphen_free n"
proof -
  from keys_checked assms(1) have "hyphen_free n \<or> list_ex is_upper n"
    by (simp add: list_all_iff)
  moreover from assms(2) have "\<not> list_ex is_upper n"
    by (simp add: list_all_iff list_ex_iff)
  ultimately show ?thesis by simp
qed

lemma find_variant_key_Some:
  "find_variant_key tbl n = Some key \<Longrightarrow> \<exists>vs. (key, vs) \<in> set tbl \<and> n \<in> set vs"
  by (induction tbl n rule: find_variant_key.induct) (auto split: if_splits)

lemma variant_key_hyphen_free:
  assumes "find_variant_key LANGUAGE_MAPPINGS n = Some key"
    and "n \<notin> set supportedLanguages" and "list_all (\<lambda>c. \<not> is_upper c) n"
  shows "hyphen_free key"
proof -
  from find_variant_key_Some[OF assms(1)] obtain vs where
    vs: "(key, vs) \<in> set LANGUAGE_MAPPINGS" "n \<in> set vs" by blast
  from variants_checked vs(1)
  have "list_all (\<lambda>v. v \<in> set supportedLanguages \<or> list_ex is_upper v \<or> hyphen_free key) vs"
    by (auto simp: list_all_iff)
  with vs(2) have "n \<in> set supportedLanguages \<or> list_ex is_upper n \<or> hyphen_free key"
    by (simp add: list_all_iff)
  moreover from assms(3) have "\<not> list_ex is_upper n"
    by (simp add: list_all_iff list_ex_iff)
  ultimately show ?thesis using assms(2) by simp
qed

lemma split_first_hyphen_free: "hyphen_free (split_first s)"
  by (auto simp: hyphen_free_def split_first_def dest: set_takeWhileD)

lemma normalize_hyphen_free: "hyphen_free (normalizeLanguageCode LANGUAGE_MAPPINGS c)"
proof -
  let ?n = "trim (toLowerCase c)"
  have en: "hyphen_free ''en''" by (simp add: hyphen_free_def)
  have nu: "list_all (\<lambda>c. \<not> is_upper c) ?n" by (rule normalized_no_upper)
  show ?thesis
  proof (cases "c = []")
    case True
    then show ?thesis using en by (simp add: normalizeLanguageCode_def)
  next
    case nonempty: False
    show ?thesis
    proof (cases "?n \<in> set supportedLanguages")
      case True
      then have "normalizeLanguageCode LANGUAGE_MAPPINGS c = ?n"
        using nonempty by (simp add: normalizeLanguageCode_def Let_def)
      then show ?thesis using key_hyphen_free[OF True nu] by simp
    next
      case nokey: False
      show ?thesis
      proof (cases "split_first ?n \<in> set supportedLanguages")
        case True
        then have "normalizeLanguageCode LANGUAGE_MAPPINGS c = split_first ?n"
          using nonempty nokey by (simp add: normalizeLanguageCode_def Let_def)
        then show ?thesis by (simp add: split_first_hyphen_free)
      next
        case nobase: False
        show ?thesis
        proof (cases "find_variant_key LANGUAGE_MAPPINGS ?n")
          case None
          then have "normalizeLanguageCode LANGUAGE_MAPPINGS c = ''en''"
            using nonempty nokey nobase by (simp add: normalizeLanguageCode_def Let_def)
          then show ?thesis using en by simp
        next
          case (Some key)
          then have "normalizeLanguageCode LANGUAGE_MAPPINGS c = key"
            using nonempty nokey nobase by (simp add: normalizeLanguageCode_def Let_def)
          then show ?thesis using variant_key_hyphen_free[OF Some nokey nu] by simp
        qed
      qed
    qed
  qed
qed

lemma split_first_id: "hyphen_free s \<Longrightarrow> split_first s = s"
  by (auto simp: hyphen_free_def split_first_def)

lemma getLanguageVariants_table:
  "snd (getLanguageVariants LANGUAGE_MAPPINGS c) = LANGUAGE_MAPPINGS"
proof -
  have "split_first (normalizeLanguageCode LANGUAGE_MAPPINGS c)
          = normalizeLanguageCode LANGUAGE_MAPPINGS c"
    by (rule split_first_id[OF normalize_hyphen_free])
  then show ?thesis
    by (simp add: getLanguageVariants_def Let_def split: option.splits)
qed

lemma language_step_table: "snd (language_step LANGUAGE_MAPPINGS op) = LANGUAGE_MAPPINGS"
proof (cases op)
  case (Variants c)
  then show ?thesis
    using getLanguageVariants_table[of c] by (simp add: split_beta)
qed simp_all

lemma language_run_table: "language_run LANGUAGE_MAPPINGS ops = LANGUAGE_MAPPINGS"
  by (induction ops) (simp_all add: language_step_table)

text \<open>
  C6. Starting from the table as the module defines it, every operation of the Language
  Matcher leaves the table as it was, and so does every sequence of operations; hence an
  operation returns the same value whatever operations ran before it. The one write to the
  table, the \<open>push\<close> in \<open>getLanguageVariants\<close>, needs a normalized code with a hyphen,
  and \<open>normalizeLanguageCode\<close> returns none.
\<close>

theorem language_table_unchanged:
  "snd (language_step LANGUAGE_MAPPINGS op) = LANGUAGE_MAPPINGS
   \<and> language_run LANGUAGE_MAPPINGS ops = LANGUAGE_MAPPINGS
   \<and> fst (language_step (language_run LANGUAGE_MAPPINGS (before @ op # between)) op)
       = fst (language_step (language_run LANGUAGE_MAPPINGS before) op)"
  by (simp add: language_step_table language_run_table)

lemma find_variant_key_is_key:
  "find_variant_key tbl n = Some key \<Longrightarrow> key \<in> set (map fst tbl)"
  by (induction tbl n rule: find_variant_key.induct) (auto split: if_splits)

lemma normalize_is_key: "normalizeLanguageCode LANGUAGE_MAPPINGS c \<in> set supportedLanguages"
proof -
  have en: "''en'' \<in> set supportedLanguages" by code_simp
  have key: "key \<in> set supportedLanguages"
    if "find_variant_key LANGUAGE_MAPPINGS n = Some key" for n key
    using find_variant_key_is_key[OF that] by (simp add: supportedLanguages_def)
  show ?thesis
    using en key by (auto simp: normalizeLanguageCode_def Let_def split: option.splits)
qed

lemma rows_checked: "list_all (\<lambda>(k, vs). 2 \<le> length (uniq vs)) LANGUAGE_MAPPINGS"
  by code_simp

lemma getLanguageVariants_row:
  "\<exists>vs. (normalizeLanguageCode LANGUAGE_MAPPINGS c, vs) \<in> set LANGUAGE_MAPPINGS
        \<and> fst (getLanguageVariants LANGUAGE_MAPPINGS c) = uniq vs"
proof -
  let ?n = "normalizeLanguageCode LANGUAGE_MAPPINGS c"
  have sf: "split_first ?n = ?n" by (rule split_first_id[OF normalize_hyphen_free])
  have "map_of LANGUAGE_MAPPINGS ?n \<noteq> None"
    using normalize_is_key[of c] by (simp add: map_of_eq_None_iff supportedLanguages_def)
  then obtain vs where vs: "map_of LANGUAGE_MAPPINGS ?n = Some vs" by blast
  then have "(?n, vs) \<in> set LANGUAGE_MAPPINGS" by (rule map_of_SomeD)
  moreover have "fst (getLanguageVariants LANGUAGE_MAPPINGS c) = uniq vs"
    using vs sf by (simp add: getLanguageVariants_def Let_def)
  ultimately show ?thesis by blast
qed

lemma getLanguageVariants_never_singleton:
  "2 \<le> length (fst (getLanguageVariants LANGUAGE_MAPPINGS c))"
proof -
  from getLanguageVariants_row[of c] obtain vs where
    vs: "(normalizeLanguageCode LANGUAGE_MAPPINGS c, vs) \<in> set LANGUAGE_MAPPINGS"
        "fst (getLanguageVariants LANGUAGE_MAPPINGS c) = uniq vs" by blast
  from rows_checked vs(1) have "2 \<le> length (uniq vs)" by (auto simp: list_all_iff)
  with vs(2) show ?thesis by simp
qed

lemma key_lengths: "list_all (\<lambda>k. hyphen_free k \<longrightarrow> length k = 2) supportedLanguages"
  by code_simp

lemma normalize_length: "length (normalizeLanguageCode LANGUAGE_MAPPINGS c) = 2"
  using key_lengths normalize_is_key[of c] normalize_hyphen_free[of c]
  by (auto simp: list_all_iff)

lemma startsWith_same_length: "length a = length b \<Longrightarrow> startsWith a b \<longleftrightarrow> a = b"
  by (simp add: startsWith_def)

lemma family_test_is_exact_test:
  "(\<lambda>lang. startsWith (normalizeLanguageCode LANGUAGE_MAPPINGS lang)
              (split_first (normalizeLanguageCode LANGUAGE_MAPPINGS preferred))
            \<or> normalizeLanguageCode LANGUAGE_MAPPINGS lang
                = split_first (normalizeLanguageCode LANGUAGE_MAPPINGS preferred))
   = (\<lambda>lang. normalizeLanguageCode LANGUAGE_MAPPINGS lang
                = normalizeLanguageCode LANGUAGE_MAPPINGS preferred)"
  by (rule ext)
     (simp add: split_first_id[OF normalize_hyphen_free] startsWith_same_length normalize_length)

lemma findBestLanguageMatch_never_family:
  "matchType (findBestLanguageMatch LANGUAGE_MAPPINGS available preferred) \<noteq> ''family''"
  by (simp add: findBestLanguageMatch_def Let_def family_test_is_exact_test split: option.splits)

text \<open>
  C7. The code \<open>xx\<close> is not a key of the table, and \<open>getLanguageVariants\<close> returns the
  variants of English for it, not the singleton \<open>[xx]\<close>: \<open>normalizeLanguageCode\<close> has
  already replaced the unknown code by \<open>en\<close>. For no code at all is the result a
  singleton; the fallback \<open>|| [normalized]\<close> is never taken.
\<close>

theorem getLanguageVariants_unknown_code:
  "map_of LANGUAGE_MAPPINGS ''xx'' = None
   \<and> fst (getLanguageVariants LANGUAGE_MAPPINGS ''xx'')
       = [''en'', ''en-US'', ''en-GB'', ''en-CA'', ''en-AU'']
   \<and> 2 \<le> length (fst (getLanguageVariants LANGUAGE_MAPPINGS c))"
proof -
  have "map_of LANGUAGE_MAPPINGS ''xx'' = None" by code_simp
  moreover have "fst (getLanguageVariants LANGUAGE_MAPPINGS ''xx'')
       = [''en'', ''en-US'', ''en-GB'', ''en-CA'', ''en-AU'']" by code_simp
  ultimately show ?thesis using getLanguageVariants_never_singleton[of c] by simp
qed

text \<open>
  C8. With \<open>en-GB\<close> the only available language and \<open>en\<close> preferred, the available set
  does not contain the preferred code and \<open>en-GB\<close> shares its primary subtag; the result
  is an exact match with confidence 1, not a family match with confidence 0.8. The exact
  test compares normalized codes, and normalization has already cut the region off. For
  no input at all is the match kind \<open>family\<close>.
\<close>

theorem findBestLanguageMatch_regional_variant:
  "''en'' \<notin> set [''en-GB'']
   \<and> split_first ''en-GB'' = split_first ''en''
   \<and> findBestLanguageMatch LANGUAGE_MAPPINGS [''en-GB''] ''en''
       = \<lparr>selectedLanguage = ''en-GB'', matchType = ''exact'', confidence = 1,
          availableAlternatives = []\<rparr>
   \<and> matchType (findBestLanguageMatch LANGUAGE_MAPPINGS available preferred) \<noteq> ''family''"
proof -
  have "''en'' \<notin> set [''en-GB'']" by simp
  moreover have "split_first ''en-GB'' = split_first ''en''" by code_simp
  moreover have "findBestLanguageMatch LANGUAGE_MAPPINGS [''en-GB''] ''en''
       = \<lparr>selectedLanguage = ''en-GB'', matchType = ''exact'', confidence = 1,
          availableAlternatives = []\<rparr>" by code_simp
  ultimately show ?thesis
    using findBestLanguageMatch_never_family[of available preferred] by simp
qed

end
